theory Spec2Isabelle
  imports Complex_Main "HOL-Library.AList"
begin

section \<open>The SwayFX fader: data model\<close>

text \<open>
  A shallow embedding of \<^verbatim>\<open>sway/scripts/fadder.py\<close>. Opacities, durations and
  per-frame increments are Python floats in the script; they are modelled as exact
  rationals, so the rounding of IEEE doubles is not part of this model.

  A window is the i3ipc container object the script receives: a snapshot of the
  identifier, the \<^verbatim>\<open>type\<close> string, the name, and the truth values of the
  \<^verbatim>\<open>floating\<close> and \<^verbatim>\<open>focused\<close> attributes. A container object is
  always truthy in Python, so an attribute holding either a container or
  \<^verbatim>\<open>None\<close> is a \<open>window option\<close>.
\<close>

record window =
  wid :: int
  wtype :: string
  wname :: "string option"
  wfloating :: bool
  wfocused :: bool

text \<open>One entry of \<^verbatim>\<open>fade_queue\<close>: the dictionary with the keys
  \<^verbatim>\<open>opacity\<close>, \<^verbatim>\<open>change\<close>, \<^verbatim>\<open>target\<close> and \<^verbatim>\<open>win\<close>.\<close>

record fade =
  opacity :: rat
  change :: rat
  target :: rat
  win :: window

text \<open>
  What the script does to the outside world, in order: an opacity command handed to
  sway (\<^verbatim>\<open>win.command\<close>), a warning printed when that command raised, and the
  start-up message.
\<close>

datatype effect =
  SetOpacity window rat
  | Warn "string + int"
  | Info

datatype error = AttributeError

text \<open>
  The attributes of \<^verbatim>\<open>Fader\<close>. \<^verbatim>\<open>fade_queue\<close> is a Python dictionary keyed
  by window identifier; it is an association list in insertion order, the order in
  which the worker thread walks it. \<open>out\<close> is the trace of outputs so far.
\<close>

record fader =
  floating_windows :: "int set"
  fade_queue :: "(int \<times> fade) list"
  fader_running :: bool
  bottom_win :: "window option"
  old_win :: "window option"
  active_win :: "window option"
  out :: "effect list"

text \<open>
  The window manager is a parameter: \<open>port n\<close> tells whether the command issued
  when the trace holds \<open>n\<close> outputs raises an exception. Every pattern of
  failures is some such function.
\<close>

type_synonym port = "nat \<Rightarrow> bool"

subsection \<open>Configurable settings\<close>

definition FRAME_T :: rat where "FRAME_T = 0.01"

definition CON_AC :: rat where "CON_AC = 1.0"
definition CON_INAC :: rat where "CON_INAC = 0.88"
definition FLOAT_AC :: rat where "FLOAT_AC = 1.0"
definition FLOAT_INAC :: rat where "FLOAT_INAC = 0.88"
definition BOT_INAC :: rat where "BOT_INAC = 0.88"

definition FADE_TIME :: rat where "FADE_TIME = 0.20"
definition ALT_FADE_TIME :: rat where "ALT_FADE_TIME = 0.12"
definition CON_OUT :: rat where "CON_OUT = FADE_TIME"
definition CON_IN :: rat where "CON_IN = 0.15"
definition FLOAT_OUT :: rat where "FLOAT_OUT = ALT_FADE_TIME"
definition FLOAT_IN :: rat where "FLOAT_IN = ALT_FADE_TIME"
definition BOT_OUT :: rat where "BOT_OUT = ALT_FADE_TIME"
definition BOT_IN :: rat where "BOT_IN = ALT_FADE_TIME"
definition BOT_SWITCH_IN :: rat where "BOT_SWITCH_IN = FADE_TIME"
definition BOT_SWITCH_OUT :: rat where "BOT_SWITCH_OUT = FADE_TIME"
definition FLOAT_BOT_OUT :: rat where "FLOAT_BOT_OUT = FADE_TIME"
definition FLOAT_BOT_IN :: rat where "FLOAT_BOT_IN = FADE_TIME"

lemmas settings =
  FRAME_T_def CON_AC_def CON_INAC_def FLOAT_AC_def FLOAT_INAC_def BOT_INAC_def
  FADE_TIME_def ALT_FADE_TIME_def CON_OUT_def CON_IN_def FLOAT_OUT_def FLOAT_IN_def
  BOT_OUT_def BOT_IN_def BOT_SWITCH_IN_def BOT_SWITCH_OUT_def FLOAT_BOT_OUT_def
  FLOAT_BOT_IN_def

section \<open>Helper functions\<close>

text \<open>\<^verbatim>\<open>win.name or win.id\<close>: the name unless it is \<^verbatim>\<open>None\<close> or empty.\<close>

definition label :: "window \<Rightarrow> string + int" where
  "label w = (case wname w of
                None \<Rightarrow> Inr (wid w)
              | Some n \<Rightarrow> if n = [] then Inr (wid w) else Inl n)"

text \<open>
  \<^verbatim>\<open>win.command(f"opacity {opacity:.3f}")\<close>: the command goes on the trace, and
  the call either returns or raises. The state after the attempt is returned in both
  cases, with the exception, if any, beside it.
\<close>

definition command :: "port \<Rightarrow> fader \<Rightarrow> window \<Rightarrow> rat \<Rightarrow> fader \<times> bool" where
  "command port s w v =
     (s\<lparr>out := out s @ [SetOpacity w v]\<rparr>, port (length (out s)))"

text \<open>\<^verbatim>\<open>change_opacity\<close>: the \<^verbatim>\<open>try\<close> around the command, and the
  \<^verbatim>\<open>except\<close> branch that prints the warning and returns normally.\<close>

definition change_opacity :: "port \<Rightarrow> fader \<Rightarrow> window \<Rightarrow> rat \<Rightarrow> fader" where
  "change_opacity port s w v =
     (case command port s w v of
        (s', raised) \<Rightarrow>
          if raised then s'\<lparr>out := out s' @ [Warn (label w)]\<rparr> else s')"

section \<open>The class Fader\<close>

text \<open>\<^verbatim>\<open>start_fader\<close> sets the flag and starts the worker thread.\<close>

definition start_fader :: "fader \<Rightarrow> fader" where
  "start_fader s = s\<lparr>fader_running := True\<rparr>"

text \<open>
  \<^verbatim>\<open>add_fade(win, start, target, duration)\<close>. The window may be \<^verbatim>\<open>None\<close>;
  the duration is \<open>None\<close> for Python's \<^verbatim>\<open>None\<close>, which is falsy as zero is.
  Storing under an existing key keeps the key's place in the dictionary; a new key
  goes last. That is \<open>AList.update\<close>.
\<close>

definition add_fade ::
  "port \<Rightarrow> fader \<Rightarrow> window option \<Rightarrow> rat \<Rightarrow> rat \<Rightarrow> rat option \<Rightarrow> fader" where
  "add_fade port s win_opt start targ duration =
     (case win_opt of
        None \<Rightarrow> s
      | Some w \<Rightarrow>
          (case duration of
             None \<Rightarrow> change_opacity port s w targ
           | Some d \<Rightarrow>
               if d = 0 \<or> start = targ then change_opacity port s w targ
               else
                 let chg = (FRAME_T / d) * (targ - start);
                     s1 = s\<lparr>fade_queue :=
                             AList.update (wid w)
                               \<lparr>opacity = start, change = chg, target = targ, win = w\<rparr>
                               (fade_queue s)\<rparr>
                 in if \<not> fader_running s1 then start_fader s1 else s1))"

text \<open>\<^verbatim>\<open>on_window_focus\<close>: the handler of the focus event, \<open>new\<close> being
  \<^verbatim>\<open>e.container\<close>.\<close>

definition on_window_focus :: "port \<Rightarrow> fader \<Rightarrow> window \<Rightarrow> fader" where
  "on_window_focus port s new =
     (case active_win s of
        None \<Rightarrow> s
      | Some old \<Rightarrow>
          if wid old = wid new then s
          else
            let s' =
              (if wtype old = ''con'' \<and> wtype new = ''con'' then
                 let s1 = add_fade port s (Some new) CON_INAC CON_AC (Some CON_IN)
                 in add_fade port s1 (Some old) CON_AC CON_INAC (Some CON_OUT)
               else if wtype old = ''con'' \<and> wtype new \<noteq> ''con'' then
                 let s1 = add_fade port s (Some new) FLOAT_INAC FLOAT_AC (Some FLOAT_IN);
                     s2 = add_fade port s1 (Some old) CON_AC BOT_INAC (Some BOT_OUT)
                 in s2\<lparr>bottom_win := Some old\<rparr>
               else if wtype old \<noteq> ''con'' \<and> wtype new = ''con'' then
                 let s1 = add_fade port s (Some old) FLOAT_AC FLOAT_INAC (Some FLOAT_BOT_OUT)
                 in (case bottom_win s1 of
                       None \<Rightarrow> add_fade port s1 (Some new) CON_INAC CON_AC (Some CON_IN)
                     | Some b \<Rightarrow>
                         if wid new \<noteq> wid b then
                           let s2 = add_fade port s1 (Some b) BOT_INAC CON_INAC
                                      (Some BOT_SWITCH_OUT);
                               s3 = add_fade port s2 (Some new) CON_INAC CON_AC
                                      (Some BOT_SWITCH_IN)
                           in s3\<lparr>bottom_win := Some new\<rparr>
                         else add_fade port s1 (Some b) BOT_INAC CON_AC (Some BOT_IN))
               else
                 let s1 = add_fade port s (Some old) FLOAT_AC FLOAT_INAC (Some FLOAT_OUT)
                 in add_fade port s1 (Some new) FLOAT_INAC FLOAT_AC (Some FLOAT_IN))
            in s'\<lparr>active_win := Some new\<rparr>)"

text \<open>
  \<^verbatim>\<open>on_window_new\<close>: the handler of the new-window event. It reads \<^verbatim>\<open>active_win\<close>
  and \<^verbatim>\<open>bottom_win\<close> only after testing them, so it raises nothing.
\<close>

definition on_window_new :: "port \<Rightarrow> fader \<Rightarrow> window \<Rightarrow> fader" where
  "on_window_new port s new =
     (let s1 = (case active_win s of
                  None \<Rightarrow> s
                | Some a \<Rightarrow>
                    if wtype a = ''con'' then change_opacity port s a CON_INAC
                    else change_opacity port s a FLOAT_INAC);
          s2 = (case bottom_win s1 of
                  Some b \<Rightarrow> change_opacity port s1 b CON_INAC
                | None \<Rightarrow>
                    (case active_win s1 of
                       None \<Rightarrow> s1
                     | Some a \<Rightarrow>
                         if wtype a = ''con'' then
                           change_opacity port (s1\<lparr>bottom_win := Some a\<rparr>) a CON_INAC
                         else s1));
          s3 = change_opacity port s2 new CON_AC
      in s3\<lparr>old_win := active_win s3, active_win := Some new\<rparr>)"

text \<open>
  \<^verbatim>\<open>on_window_floating\<close>: the handler of the floating toggle. Both branches read
  \<^verbatim>\<open>self.active_win.id\<close> without a test, after the set of floating identifiers
  has been updated: with no active window that is an \<^verbatim>\<open>AttributeError\<close>, which
  nothing catches, so the handler's result is the error.
\<close>

definition on_window_floating :: "port \<Rightarrow> fader \<Rightarrow> window \<Rightarrow> error + fader" where
  "on_window_floating port s e =
     (let cid = wid e in
      if cid \<notin> floating_windows s then
        let s1 = s\<lparr>floating_windows := insert cid (floating_windows s)\<rparr> in
        (case active_win s1 of
           None \<Rightarrow> Inl AttributeError
         | Some a \<Rightarrow>
             if wid a \<noteq> cid then
               Inr ((change_opacity port s1 e FLOAT_INAC)\<lparr>active_win := Some e\<rparr>)
             else
               let s2 =
                 (case (old_win s1, bottom_win s1) of
                    (Some ow, Some bw) \<Rightarrow>
                      if wtype ow = ''con'' then
                        change_opacity port (s1\<lparr>bottom_win := Some ow\<rparr>) ow BOT_INAC
                      else change_opacity port s1 bw BOT_INAC
                  | _ \<Rightarrow> s1)
               in Inr ((change_opacity port s2 e FLOAT_AC)\<lparr>active_win := Some e\<rparr>))
      else
        let s1 = s\<lparr>floating_windows := floating_windows s - {cid}\<rparr> in
        (case active_win s1 of
           None \<Rightarrow> Inl AttributeError
         | Some a \<Rightarrow>
             if wid a \<noteq> cid then
               Inr ((change_opacity port s1 e CON_INAC)\<lparr>active_win := Some e\<rparr>)
             else
               let s2 =
                 (case old_win s1 of
                    None \<Rightarrow> s1
                  | Some ow \<Rightarrow>
                      if wtype ow = ''con'' then change_opacity port s1 ow CON_INAC
                      else s1)
               in Inr ((change_opacity port s2 a CON_AC)\<lparr>active_win := Some e\<rparr>)))"

subsection \<open>The worker thread\<close>

text \<open>The completion test \<^verbatim>\<open>done\<close> of the loop, on the entry after its
  opacity has been advanced.\<close>

definition fade_done :: "fade \<Rightarrow> bool" where
  "fade_done f =
     ((change f > 0 \<and> opacity f \<ge> target f) \<or> (change f < 0 \<and> opacity f \<le> target f))"

text \<open>
  The \<^verbatim>\<open>for\<close> loop over \<^verbatim>\<open>list(self.fade_queue.items())\<close>. The entry is a
  dictionary shared with the queue, so \<^verbatim>\<open>f["opacity"] += f["change"]\<close> changes
  the queue's entry in place; \<open>finished\<close> collects the identifiers to remove.
\<close>

fun fade_items :: "port \<Rightarrow> (int \<times> fade) list \<Rightarrow> fader \<Rightarrow> int list \<Rightarrow> fader \<times> int list" where
  "fade_items port [] s finished = (s, finished)"
| "fade_items port ((win_id, f0) # items) s finished =
     (let f = f0\<lparr>opacity := opacity f0 + change f0\<rparr>;
          s1 = s\<lparr>fade_queue := AList.update win_id f (fade_queue s)\<rparr>
      in if fade_done f then
           fade_items port items (change_opacity port s1 (win f) (target f))
             (finished @ [win_id])
         else
           fade_items port items (change_opacity port s1 (win f) (opacity f)) finished)"

text \<open>
  One pass of the \<^verbatim>\<open>while True\<close> loop, under the lock: \<open>None\<close> is the
  \<^verbatim>\<open>break\<close> on an empty queue; otherwise every entry is advanced and the
  finished ones are popped.
\<close>

definition fader_iter :: "port \<Rightarrow> fader \<Rightarrow> fader option" where
  "fader_iter port s =
     (if fade_queue s = [] then None
      else (case fade_items port (fade_queue s) s [] of
              (s1, finished) \<Rightarrow>
                Some (s1\<lparr>fade_queue := fold AList.delete finished (fade_queue s1)\<rparr>)))"

text \<open>
  \<^verbatim>\<open>fader_loop\<close>, run with no request arriving in between: it may not return, so
  the result is an option. After the \<^verbatim>\<open>break\<close> it clears
  \<^verbatim>\<open>fader_running\<close>.
\<close>

partial_function (option) fader_loop :: "port \<Rightarrow> fader \<Rightarrow> fader option" where
  "fader_loop port s =
     (case fader_iter port s of
        None \<Rightarrow> Some (s\<lparr>fader_running := False\<rparr>)
      | Some s' \<Rightarrow> fader_loop port s')"

text \<open>The state of the worker after at most \<open>n\<close> passes of its loop (fewer when
  the loop exits before).\<close>

fun fader_ticks :: "port \<Rightarrow> nat \<Rightarrow> fader \<Rightarrow> fader" where
  "fader_ticks port 0 s = s"
| "fader_ticks port (Suc n) s =
     (case fader_iter port s of
        None \<Rightarrow> s\<lparr>fader_running := False\<rparr>
      | Some s' \<Rightarrow> fader_ticks port n s')"

subsection \<open>Start-up and the event loop\<close>

text \<open>The attribute values set at the top of \<^verbatim>\<open>__init__\<close>.\<close>

definition init_fields :: fader where
  "init_fields =
     \<lparr>floating_windows = {}, fade_queue = [], fader_running = False,
      bottom_win = None, old_win = None, active_win = None, out = []\<rparr>"

text \<open>\<^verbatim>\<open>init_existing_windows\<close>, over the list \<^verbatim>\<open>tree.descendants()\<close>.\<close>

fun init_existing_windows :: "port \<Rightarrow> window list \<Rightarrow> fader \<Rightarrow> fader" where
  "init_existing_windows port [] s = s"
| "init_existing_windows port (w # ws) s =
     (if wtype w \<noteq> ''con'' \<and> wtype w \<noteq> ''floating_con'' then
        init_existing_windows port ws s
      else if wfloating w then
        let s1 = s\<lparr>floating_windows := insert (wid w) (floating_windows s)\<rparr> in
        if wfocused w then
          init_existing_windows port ws
            (change_opacity port (s1\<lparr>active_win := Some w\<rparr>) w FLOAT_AC)
        else init_existing_windows port ws (change_opacity port s1 w FLOAT_INAC)
      else if wfocused w then
        init_existing_windows port ws
          (change_opacity port (s\<lparr>active_win := Some w\<rparr>) w CON_AC)
      else init_existing_windows port ws (change_opacity port s w CON_INAC))"

text \<open>\<^verbatim>\<open>Fader()\<close> up to the call of \<^verbatim>\<open>ipc.main()\<close>.\<close>

definition Fader :: "port \<Rightarrow> window list \<Rightarrow> fader" where
  "Fader port tree =
     (let s = init_existing_windows port tree init_fields
      in s\<lparr>out := out s @ [Info]\<rparr>)"

text \<open>
  What happens next is either an event delivered to its handler or a pass of the worker
  thread. The lock makes a pass atomic with respect to the queue; a handler is taken as
  one step as well. An exception leaving a handler ends the program.
\<close>

datatype action =
  WindowFocus window
  | WindowNew window
  | WindowFloating window
  | Tick

definition step :: "port \<Rightarrow> fader \<Rightarrow> action \<Rightarrow> error + fader" where
  "step port s a =
     (case a of
        WindowFocus w \<Rightarrow> Inr (on_window_focus port s w)
      | WindowNew w \<Rightarrow> Inr (on_window_new port s w)
      | WindowFloating w \<Rightarrow> on_window_floating port s w
      | Tick \<Rightarrow> Inr (if fader_running s then fader_ticks port 1 s else s))"

fun run :: "port \<Rightarrow> fader \<Rightarrow> action list \<Rightarrow> error + fader" where
  "run port s [] = Inr s"
| "run port s (a # as) =
     (case step port s a of
        Inl e \<Rightarrow> Inl e
      | Inr s' \<Rightarrow> run port s' as)"

subsection \<open>Reading the trace\<close>

text \<open>The opacity commands of a trace, in order, and the values commanded for one
  window identifier.\<close>

fun cmds :: "effect list \<Rightarrow> (window \<times> rat) list" where
  "cmds [] = []"
| "cmds (SetOpacity w v # os) = (w, v) # cmds os"
| "cmds (Warn l # os) = cmds os"
| "cmds (Info # os) = cmds os"

definition opacities_of :: "int \<Rightarrow> effect list \<Rightarrow> rat list" where
  "opacities_of k os = map snd (filter (\<lambda>p. wid (fst p) = k) (cmds os))"

text \<open>Sample values for closed instances: a port that never fails, and three windows.\<close>

definition port_ok :: port where
  "port_ok = (\<lambda>n. False)"

definition win_A :: window where
  "win_A = \<lparr>wid = 1, wtype = ''con'', wname = Some ''term'', wfloating = False, wfocused = True\<rparr>"

definition win_B :: window where
  "win_B = \<lparr>wid = 2, wtype = ''con'', wname = Some ''editor'', wfloating = False, wfocused = False\<rparr>"

definition win_F :: window where
  "win_F = \<lparr>wid = 3, wtype = ''floating_con'', wname = None, wfloating = True, wfocused = False\<rparr>"

definition win_B_floating :: window where
  "win_B_floating = win_B\<lparr>wtype := ''floating_con''\<rparr>"

text \<open>A state with two fades in flight, one rising and one falling, both of which would
  overshoot their target on the third pass.\<close>

definition fading_AB :: fader where
  "fading_AB =
     add_fade port_ok (add_fade port_ok init_fields (Some win_A) 0.5 1 (Some 0.025))
       (Some win_B) 1 0.5 (Some 0.025)"

subsection \<open>One pass of the worker, entry by entry\<close>

text \<open>
  Names for what one pass does to a single entry: \<open>advance\<close> is
  \<^verbatim>\<open>f["opacity"] += f["change"]\<close>, \<open>issued\<close> is the value of the command sent
  for the entry, and \<open>tick_queue\<close> is the queue with every entry advanced and the
  finished ones gone. \<open>queue_ok\<close> says that the association list is a dictionary
  (no key twice) whose entry under a key holds a window with that identifier.
\<close>

definition advance :: "fade \<Rightarrow> fade" where
  "advance f = f\<lparr>opacity := opacity f + change f\<rparr>"

definition issued :: "fade \<Rightarrow> rat" where
  "issued f = (if fade_done (advance f) then target f else opacity f + change f)"

definition tick_queue :: "(int \<times> fade) list \<Rightarrow> (int \<times> fade) list" where
  "tick_queue q = map (apsnd advance) (filter (\<lambda>p. \<not> fade_done (advance (snd p))) q)"

definition queue_ok :: "(int \<times> fade) list \<Rightarrow> bool" where
  "queue_ok q = (distinct (map fst q) \<and> list_all (\<lambda>p. wid (win (snd p)) = fst p) q)"

text \<open>
  The number of passes after which an entry with a non-zero increment is finished, and
  the values commanded for it on the passes before that one.
\<close>

definition ticks_left :: "fade \<Rightarrow> nat" where
  "ticks_left f = max 1 (nat \<lceil>(target f - opacity f) / change f\<rceil>)"

definition fade_values :: "fade \<Rightarrow> nat \<Rightarrow> rat list" where
  "fade_values f n = map (\<lambda>j. opacity f + of_nat j * change f) [1..<n]"

text \<open>
  Observations of one window identifier while the worker runs from a state \<open>s\<close>:
  the opacity stored in its entry after \<open>m\<close> passes (\<open>None\<close> when there is no
  entry), and the values commanded for it during those passes.
\<close>

definition opacity_at :: "port \<Rightarrow> fader \<Rightarrow> int \<Rightarrow> nat \<Rightarrow> rat option" where
  "opacity_at port s k m = map_option opacity (map_of (fade_queue (fader_ticks port m s)) k)"

definition commanded :: "port \<Rightarrow> fader \<Rightarrow> int \<Rightarrow> nat \<Rightarrow> rat list" where
  "commanded port s k m =
     drop (length (opacities_of k (out s))) (opacities_of k (out (fader_ticks port m s)))"

text \<open>The role invariant: the bottom window, when there is one, is of type
  \<^verbatim>\<open>con\<close>.\<close>

definition bottom_ok :: "fader \<Rightarrow> bool" where
  "bottom_ok s = (case bottom_win s of None \<Rightarrow> True | Some b \<Rightarrow> wtype b = ''con'')"

text \<open>Everything but the trace.\<close>

definition core :: "fader \<Rightarrow> fader" where
  "core s = s\<lparr>out := []\<rparr>"

text \<open>
  A stretch of trace that starts at position \<open>n\<close> is well formed when every command
  that raised is followed at once by the warning for its window, and no other warning
  occurs.
\<close>

fun logged :: "port \<Rightarrow> nat \<Rightarrow> effect list \<Rightarrow> bool" where
  "logged port n [] = True"
| "logged port n (SetOpacity w v # Warn l # es) =
     (port n \<and> l = label w \<and> logged port (n + 2) es)"
| "logged port n (SetOpacity w v # es) = (\<not> port n \<and> logged port (Suc n) es)"
| "logged port n (Warn l # es) = False"
| "logged port n (Info # es) = logged port (Suc n) es"

section \<open>Properties\<close>

subsection \<open>Setting an opacity\<close>

lemma cmds_append: "cmds (xs @ ys) = cmds xs @ cmds ys"
  by (induction xs rule: cmds.induct) simp_all

lemma change_opacity_fields:
  "floating_windows (change_opacity port s w v) = floating_windows s"
  "fade_queue (change_opacity port s w v) = fade_queue s"
  "fader_running (change_opacity port s w v) = fader_running s"
  "bottom_win (change_opacity port s w v) = bottom_win s"
  "old_win (change_opacity port s w v) = old_win s"
  "active_win (change_opacity port s w v) = active_win s"
  by (simp_all add: change_opacity_def command_def)

lemma change_opacity_out:
  "out (change_opacity port s w v) =
     out s @ (if port (length (out s)) then [SetOpacity w v, Warn (label w)]
              else [SetOpacity w v])"
  by (simp add: change_opacity_def command_def)

lemma change_opacity_cmds:
  "cmds (out (change_opacity port s w v)) = cmds (out s) @ [(w, v)]"
  by (simp add: change_opacity_out cmds_append)

subsection \<open>Requests that need no animation\<close>

text \<open>
  Claim C6. A call of \<^verbatim>\<open>add_fade\<close> for a window with a duration that is zero or
  \<^verbatim>\<open>None\<close>, or with the start opacity equal to the target, is the single call
  \<^verbatim>\<open>change_opacity(win, target)\<close>: exactly one opacity command, carrying the
  target, is added to the trace, and the queue of fades is unchanged.
\<close>

theorem add_fade_immediate:
  "duration = None \<or> duration = Some 0 \<or> start = targ \<Longrightarrow>
   add_fade port s (Some w) start targ duration = change_opacity port s w targ \<and>
   cmds (out (add_fade port s (Some w) start targ duration)) = cmds (out s) @ [(w, targ)] \<and>
   fade_queue (add_fade port s (Some w) start targ duration) = fade_queue s"
  by (auto simp: add_fade_def change_opacity_cmds change_opacity_fields split: option.splits)

theorem add_fade_immediate_witness:
  "cmds (out (add_fade port_ok init_fields (Some win_A) 0.5 1.0 (Some 0))) = [(win_A, 1.0)] \<and>
   fade_queue (add_fade port_ok init_fields (Some win_A) 0.5 1.0 (Some 0)) = []"
  using add_fade_immediate [of "Some 0" "0.5" "1.0" port_ok init_fields win_A]
  by (simp add: init_fields_def change_opacity_cmds change_opacity_fields)

subsection \<open>The focus handler\<close>

text \<open>
  Claim C10. A focus event handled while no active window is recorded changes nothing:
  the handler returns the state it was given, so no command is issued, no fade is
  created, and the role fields and the queue are as before.
\<close>

theorem on_window_focus_no_active:
  "active_win s = None \<Longrightarrow> on_window_focus port s new = s"
  by (simp add: on_window_focus_def)

theorem on_window_focus_no_active_witness:
  "on_window_focus port_ok (Fader port_ok [win_B, win_F]) win_A = Fader port_ok [win_B, win_F]"
  using on_window_focus_no_active [of "Fader port_ok [win_B, win_F]" port_ok win_A]
  by (simp add: Fader_def Let_def init_fields_def win_B_def win_F_def change_opacity_fields)

text \<open>
  Claim C7. When the active window and the newly focused window are both of type
  \<^verbatim>\<open>con\<close> and have different identifiers, the handler makes exactly two requests:
  the new window from \<open>CON_INAC\<close> to \<open>CON_AC\<close> over \<open>CON_IN\<close>, then the old one
  from \<open>CON_AC\<close> to \<open>CON_INAC\<close> over \<open>CON_OUT\<close>, and records the new window as
  active. With the configured values the whole effect is: the new window's entry runs
  from 0.88 to 1 in steps of 0.008, the old window's from 1 to 0.88 in steps of
  -0.006, the worker is running, and nothing is written to the trace.
\<close>

theorem focus_tiled_to_tiled:
  assumes "active_win s = Some old" and "wid old \<noteq> wid new"
    and "wtype old = ''con''" and "wtype new = ''con''"
  shows "on_window_focus port s new =
           (add_fade port (add_fade port s (Some new) CON_INAC CON_AC (Some CON_IN))
              (Some old) CON_AC CON_INAC (Some CON_OUT))\<lparr>active_win := Some new\<rparr>
         \<and> on_window_focus port s new =
           s\<lparr>fade_queue :=
               AList.update (wid old)
                 \<lparr>opacity = 1, change = - 0.006, target = 0.88, win = old\<rparr>
                 (AList.update (wid new)
                    \<lparr>opacity = 0.88, change = 0.008, target = 1, win = new\<rparr>
                    (fade_queue s)),
             fader_running := True, active_win := Some new\<rparr>"
  using assms
  by (cases "fader_running s")
    (simp_all add: on_window_focus_def add_fade_def start_fader_def settings Let_def)

theorem focus_tiled_to_tiled_witness:
  "fade_queue (on_window_focus port_ok (Fader port_ok [win_A, win_B]) win_B) =
     [(2, \<lparr>opacity = 0.88, change = 0.008, target = 1, win = win_B\<rparr>),
      (1, \<lparr>opacity = 1, change = - 0.006, target = 0.88, win = win_A\<rparr>)] \<and>
   active_win (on_window_focus port_ok (Fader port_ok [win_A, win_B]) win_B) = Some win_B"
  using focus_tiled_to_tiled [of "Fader port_ok [win_A, win_B]" win_A win_B port_ok]
  by (simp add: Fader_def Let_def init_fields_def win_A_def win_B_def change_opacity_fields
      add_fade_def start_fader_def settings)

lemma add_fade_roles:
  "floating_windows (add_fade port s wo a b d) = floating_windows s"
  "bottom_win (add_fade port s wo a b d) = bottom_win s"
  "old_win (add_fade port s wo a b d) = old_win s"
  "active_win (add_fade port s wo a b d) = active_win s"
  by (simp_all add: add_fade_def start_fader_def change_opacity_fields Let_def split: option.splits)

text \<open>
  Claim C1. When the active window is not of type \<^verbatim>\<open>con\<close>, the newly focused one
  is, and their identifiers differ, the handler first requests the fade of the old
  window from \<open>FLOAT_AC\<close> to \<open>FLOAT_INAC\<close> over \<open>FLOAT_BOT_OUT\<close>. Then, with no
  bottom window, it requests the new window from \<open>CON_INAC\<close> to \<open>CON_AC\<close> over
  \<open>CON_IN\<close>; with a bottom window of another identifier, it requests the bottom from
  \<open>BOT_INAC\<close> to \<open>CON_INAC\<close> over \<open>BOT_SWITCH_OUT\<close>, the new window from
  \<open>CON_INAC\<close> to \<open>CON_AC\<close> over \<open>BOT_SWITCH_IN\<close>, and makes the new window the
  bottom; with a bottom window of the same identifier, it requests only the bottom from
  \<open>BOT_INAC\<close> to \<open>CON_AC\<close> over \<open>BOT_IN\<close>. In every case the new window is the
  active one afterwards. (A request is a call of \<^verbatim>\<open>add_fade\<close>; the one from
  \<open>BOT_INAC\<close> to \<open>CON_INAC\<close> has equal start and target with the configured values,
  so \<^verbatim>\<open>add_fade\<close> serves it with a single command.)
\<close>

theorem focus_floating_to_tiled:
  assumes "active_win s = Some old" and "wid old \<noteq> wid new"
    and "wtype old \<noteq> ''con''" and "wtype new = ''con''"
  shows "(let s1 = add_fade port s (Some old) FLOAT_AC FLOAT_INAC (Some FLOAT_BOT_OUT) in
          on_window_focus port s new =
            (case bottom_win s of
               None \<Rightarrow>
                 (add_fade port s1 (Some new) CON_INAC CON_AC (Some CON_IN))
                   \<lparr>active_win := Some new\<rparr>
             | Some b \<Rightarrow>
                 if wid new \<noteq> wid b then
                   (add_fade port
                      (add_fade port s1 (Some b) BOT_INAC CON_INAC (Some BOT_SWITCH_OUT))
                      (Some new) CON_INAC CON_AC (Some BOT_SWITCH_IN))
                     \<lparr>bottom_win := Some new, active_win := Some new\<rparr>
                 else
                   (add_fade port s1 (Some b) BOT_INAC CON_AC (Some BOT_IN))
                     \<lparr>active_win := Some new\<rparr>))
         \<and> active_win (on_window_focus port s new) = Some new"
  using assms
  by (simp add: on_window_focus_def Let_def add_fade_roles split: option.splits)

theorem focus_floating_to_tiled_witness:
  "fade_queue (on_window_focus port_ok
       (on_window_focus port_ok (Fader port_ok [win_A, win_B, win_F]) win_F) win_A) =
     [(3, \<lparr>opacity = 1, change = - 0.006, target = 0.88, win = win_F\<rparr>),
      (1, \<lparr>opacity = 0.88, change = 0.01, target = 1, win = win_A\<rparr>)] \<and>
   active_win (on_window_focus port_ok
       (on_window_focus port_ok (Fader port_ok [win_A, win_B, win_F]) win_F) win_A) = Some win_A \<and>
   bottom_win (on_window_focus port_ok
       (on_window_focus port_ok (Fader port_ok [win_A, win_B, win_F]) win_F) win_A) = Some win_A \<and>
   fade_queue (on_window_focus port_ok
       (on_window_focus port_ok (Fader port_ok [win_A, win_B, win_F]) win_F) win_B) =
     [(3, \<lparr>opacity = 1, change = - 0.006, target = 0.88, win = win_F\<rparr>),
      (1, \<lparr>opacity = 1, change = - 0.01, target = 0.88, win = win_A\<rparr>),
      (2, \<lparr>opacity = 0.88, change = 0.006, target = 1, win = win_B\<rparr>)] \<and>
   bottom_win (on_window_focus port_ok
       (on_window_focus port_ok (Fader port_ok [win_A, win_B, win_F]) win_F) win_B) = Some win_B"
  using focus_floating_to_tiled
      [of "on_window_focus port_ok (Fader port_ok [win_A, win_B, win_F]) win_F" win_F win_A port_ok]
    focus_floating_to_tiled
      [of "on_window_focus port_ok (Fader port_ok [win_A, win_B, win_F]) win_F" win_F win_B port_ok]
  by (simp add: on_window_focus_def Fader_def Let_def init_fields_def win_A_def win_B_def win_F_def
      change_opacity_fields add_fade_def start_fader_def settings)

text \<open>
  Claim C5. A floating toggle for a window whose identifier is not yet in
  \<^verbatim>\<open>floating_windows\<close> and is that of the active window, handled while both
  \<^verbatim>\<open>old_win\<close> and \<^verbatim>\<open>bottom_win\<close> are set and \<^verbatim>\<open>old_win\<close> is of type
  \<^verbatim>\<open>con\<close>: the handler returns normally, the bottom window is now the previous
  window, exactly two commands are issued, \<open>BOT_INAC\<close> for that bottom window and then
  \<open>FLOAT_AC\<close> for the toggled window, the queue of fades is untouched, and the toggled
  window is the active one.
\<close>

theorem floating_toggle_active:
  assumes "wid e \<notin> floating_windows s" and "active_win s = Some a" and "wid a = wid e"
    and "old_win s = Some ow" and "bottom_win s = Some bw" and "wtype ow = ''con''"
  shows "(case on_window_floating port s e of
            Inl err \<Rightarrow> False
          | Inr s' \<Rightarrow>
              bottom_win s' = Some ow \<and> active_win s' = Some e \<and>
              cmds (out s') = cmds (out s) @ [(ow, BOT_INAC), (e, FLOAT_AC)] \<and>
              fade_queue s' = fade_queue s \<and> fader_running s' = fader_running s \<and>
              old_win s' = old_win s \<and>
              floating_windows s' = insert (wid e) (floating_windows s))"
  using assms
  by (simp add: on_window_floating_def Let_def change_opacity_fields change_opacity_cmds)

theorem floating_toggle_active_witness:
  "(case on_window_floating port_ok (on_window_new port_ok (Fader port_ok [win_A]) win_B)
           win_B_floating of
      Inl err \<Rightarrow> False
    | Inr s' \<Rightarrow>
        bottom_win s' = Some win_A \<and> active_win s' = Some win_B_floating \<and>
        cmds (out s') =
          [(win_A, 1), (win_A, 0.88), (win_A, 0.88), (win_B, 1),
           (win_A, 0.88), (win_B_floating, 1)] \<and>
        fade_queue s' = [])"
  using floating_toggle_active
    [of win_B_floating "on_window_new port_ok (Fader port_ok [win_A]) win_B" win_B win_A win_A port_ok]
  by (simp add: on_window_new_def Fader_def Let_def init_fields_def win_A_def win_B_def
      win_B_floating_def change_opacity_fields change_opacity_cmds cmds_append settings
      split: sum.splits)


subsection \<open>What one pass of the worker does\<close>

lemma update_in_place:
  "k \<notin> fst ` set pre \<Longrightarrow> AList.update k v (pre @ (k, x) # rest) = pre @ (k, v) # rest"
  by (induction pre) auto

lemma fade_items_queue:
  "distinct (map fst (pre @ items)) \<Longrightarrow> fade_queue s = pre @ items \<Longrightarrow>
   fade_queue (fst (fade_items port items s fin)) = pre @ map (apsnd advance) items"
proof (induction items arbitrary: pre s fin)
  case Nil
  then show ?case by simp
next
  case (Cons p items)
  obtain k f0 where p: "p = (k, f0)" by (cases p)
  let ?f = "f0\<lparr>opacity := opacity f0 + change f0\<rparr>"
  let ?s1 = "s\<lparr>fade_queue := AList.update k ?f (fade_queue s)\<rparr>"
  from Cons.prems p have notin: "k \<notin> fst ` set pre" by auto
  have q1: "fade_queue ?s1 = (pre @ [(k, ?f)]) @ items"
    using Cons.prems(2) p notin by (simp add: update_in_place)
  have d1: "distinct (map fst ((pre @ [(k, ?f)]) @ items))"
    using Cons.prems(1) p by simp
  have step: "fade_queue (fst (fade_items port items (change_opacity port ?s1 w v) fin')) =
        (pre @ [(k, ?f)]) @ map (apsnd advance) items" for w v fin'
    using Cons.IH [OF d1, of "change_opacity port ?s1 w v" fin'] q1
    by (simp add: change_opacity_fields)
  show ?case
    using step by (simp add: p Let_def advance_def)
qed

lemma fade_items_finished:
  "snd (fade_items port items s fin) =
     fin @ map fst (filter (\<lambda>p. fade_done (advance (snd p))) items)"
  by (induction items arbitrary: s fin) (auto simp: Let_def advance_def)

lemma fade_items_cmds:
  "cmds (out (fst (fade_items port items s fin))) =
     cmds (out s) @ map (\<lambda>p. (win (snd p), issued (snd p))) items"
  by (induction items arbitrary: s fin)
    (auto simp: Let_def advance_def issued_def change_opacity_cmds)

lemma fade_items_roles:
  "floating_windows (fst (fade_items port items s fin)) = floating_windows s"
  "fader_running (fst (fade_items port items s fin)) = fader_running s"
  "bottom_win (fst (fade_items port items s fin)) = bottom_win s"
  "old_win (fst (fade_items port items s fin)) = old_win s"
  "active_win (fst (fade_items port items s fin)) = active_win s"
  by (induction port items s fin rule: fade_items.induct;
      simp add: Let_def change_opacity_fields)+

lemma fold_delete: "fold AList.delete ks q = filter (\<lambda>p. fst p \<notin> set ks) q"
  by (induction ks arbitrary: q) (auto simp: AList.delete_eq case_prod_beta intro: filter_cong)

lemma filter_keys_distinct:
  assumes "distinct (map fst q)"
  shows "filter (\<lambda>p. fst p \<notin> fst ` set (filter P q)) q = filter (\<lambda>p. \<not> P p) q"
proof (rule filter_cong [OF refl])
  fix p assume "p \<in> set q"
  then have mem: "(fst p, snd p) \<in> set q" by simp
  show "(fst p \<notin> fst ` set (filter P q)) = (\<not> P p)"
  proof
    assume "fst p \<notin> fst ` set (filter P q)"
    with \<open>p \<in> set q\<close> show "\<not> P p" by force
  next
    assume np: "\<not> P p"
    show "fst p \<notin> fst ` set (filter P q)"
    proof
      assume "fst p \<in> fst ` set (filter P q)"
      then obtain p' where p': "p' \<in> set q" "P p'" "fst p' = fst p" by auto
      then have "(fst p, snd p') \<in> set q" by (metis prod.collapse)
      with mem assms have "snd p' = snd p" by (metis eq_key_imp_eq_value)
      with p' have "p' = p" by (simp add: prod_eq_iff)
      with np p' show False by simp
    qed
  qed
qed

lemma tick_queue_filter:
  assumes "distinct (map fst q)"
  shows "filter (\<lambda>p. fst p \<notin> set (map fst (filter (\<lambda>p. fade_done (advance (snd p))) q)))
           (map (apsnd advance) q) = tick_queue q"
proof -
  have "filter (\<lambda>p. fst p \<notin> set (map fst (filter (\<lambda>p. fade_done (advance (snd p))) q)))
           (map (apsnd advance) q) =
        map (apsnd advance)
          (filter (\<lambda>p. fst p \<notin> fst ` set (filter (\<lambda>p. fade_done (advance (snd p))) q)) q)"
    by (simp add: filter_map comp_def)
  also have "\<dots> = tick_queue q"
    using filter_keys_distinct [OF assms, of "\<lambda>p. fade_done (advance (snd p))"]
    by (simp add: tick_queue_def)
  finally show ?thesis .
qed

lemma fader_iter_empty: "fade_queue s = [] \<Longrightarrow> fader_iter port s = None"
  by (simp add: fader_iter_def)

lemma fader_iter_Some:
  assumes "distinct (map fst (fade_queue s))" and "fade_queue s \<noteq> []"
  obtains s' where "fader_iter port s = Some s'"
    and "fade_queue s' = tick_queue (fade_queue s)"
    and "cmds (out s') =
           cmds (out s) @ map (\<lambda>p. (win (snd p), issued (snd p))) (fade_queue s)"
    and "fader_running s' = fader_running s"
    and "floating_windows s' = floating_windows s" and "bottom_win s' = bottom_win s"
    and "old_win s' = old_win s" and "active_win s' = active_win s"
proof -
  obtain s1 fin where r: "fade_items port (fade_queue s) s [] = (s1, fin)"
    by (cases "fade_items port (fade_queue s) s []")
  then have s1: "s1 = fst (fade_items port (fade_queue s) s [])"
    and fin: "fin = snd (fade_items port (fade_queue s) s [])" by simp_all
  let ?s' = "s1\<lparr>fade_queue := fold AList.delete fin (fade_queue s1)\<rparr>"
  have q1: "fade_queue s1 = map (apsnd advance) (fade_queue s)"
    using fade_items_queue [of "[]" "fade_queue s" s port "[]"] assms(1) s1 by simp
  have "fader_iter port s = Some ?s'"
    using assms(2) r by (simp add: fader_iter_def)
  moreover have "fade_queue ?s' = tick_queue (fade_queue s)"
    using q1 fin tick_queue_filter [OF assms(1)]
    by (simp add: fold_delete fade_items_finished)
  moreover have "cmds (out ?s') =
      cmds (out s) @ map (\<lambda>p. (win (snd p), issued (snd p))) (fade_queue s)"
    by (simp add: s1 fade_items_cmds)
  moreover have "fader_running ?s' = fader_running s" "floating_windows ?s' = floating_windows s"
    "bottom_win ?s' = bottom_win s" "old_win ?s' = old_win s" "active_win ?s' = active_win s"
    by (simp_all add: s1 fade_items_roles)
  ultimately show ?thesis using that by blast
qed

subsection \<open>The queue is a dictionary\<close>

lemma queue_ok_Nil: "queue_ok []"
  by (simp add: queue_ok_def)

lemma set_update_subset: "set (AList.update k v q) \<subseteq> insert (k, v) (set q)"
  by (induction q) auto

lemma queue_ok_update:
  "queue_ok q \<Longrightarrow> wid (win f) = k \<Longrightarrow> queue_ok (AList.update k f q)"
proof -
  assume ok: "queue_ok q" and key: "wid (win f) = k"
  have "set (AList.update k f q) \<subseteq> insert (k, f) (set q)"
    by (rule set_update_subset)
  with ok key have "list_all (\<lambda>p. wid (win (snd p)) = fst p) (AList.update k f q)"
    by (auto simp: queue_ok_def list_all_iff)
  with ok show ?thesis by (simp add: queue_ok_def distinct_update)
qed

lemma queue_ok_tick: "queue_ok q \<Longrightarrow> queue_ok (tick_queue q)"
  by (auto simp: queue_ok_def tick_queue_def list_all_iff advance_def comp_def distinct_map_filter)

lemma map_of_tick_queue:
  "distinct (map fst q) \<Longrightarrow>
   map_of (tick_queue q) k =
     (case map_of q k of
        None \<Rightarrow> None
      | Some f \<Rightarrow> if fade_done (advance f) then None else Some (advance f))"
proof (induction q)
  case Nil
  then show ?case by (simp add: tick_queue_def)
next
  case (Cons p q)
  then have IH: "map_of (tick_queue q) k =
     (case map_of q k of
        None \<Rightarrow> None
      | Some f \<Rightarrow> if fade_done (advance f) then None else Some (advance f))" by simp
  have tq: "tick_queue (p # q) =
      (if fade_done (advance (snd p)) then tick_queue q
       else (fst p, advance (snd p)) # tick_queue q)"
    by (cases p) (simp add: tick_queue_def)
  show ?case
  proof (cases "fst p = k")
    case True
    with Cons.prems have "map_of q k = None"
      by (simp add: map_of_eq_None_iff)
    with True IH tq show ?thesis by (cases p) auto
  next
    case False
    with IH tq show ?thesis by (cases p) auto
  qed
qed

lemma issued_of_key:
  "queue_ok q \<Longrightarrow>
   map snd (filter (\<lambda>p. wid (fst p) = k) (map (\<lambda>p. (win (snd p), issued (snd p))) q)) =
     (case map_of q k of None \<Rightarrow> [] | Some f \<Rightarrow> [issued f])"
proof (induction q)
  case Nil
  then show ?case by simp
next
  case (Cons p q)
  then have ok: "queue_ok q" and key: "wid (win (snd p)) = fst p"
    and fresh: "fst p \<notin> fst ` set q"
    by (auto simp: queue_ok_def)
  show ?case
  proof (cases "fst p = k")
    case True
    with fresh have none: "map_of q k = None" by (simp add: map_of_eq_None_iff)
    with Cons.IH [OF ok] True key show ?thesis by (cases p) (auto split: option.splits)
  next
    case False
    with Cons.IH [OF ok] key show ?thesis by (cases p) auto
  qed
qed

subsection \<open>Counting passes\<close>

lemma fade_done_advance:
  assumes "change f \<noteq> 0"
  shows "fade_done (advance f) \<longleftrightarrow> (target f - opacity f) / change f \<le> 1"
proof (cases "change f > 0")
  case True
  then show ?thesis
    by (auto simp: fade_done_def advance_def pos_divide_le_eq)
next
  case False
  with assms have neg: "change f < 0" by simp
  then show ?thesis
    by (auto simp: fade_done_def advance_def neg_divide_le_eq)
qed

lemma ticks_left_pos: "0 < ticks_left f"
  by (simp add: ticks_left_def)

lemma ticks_left_done:
  assumes "change f \<noteq> 0"
  shows "fade_done (advance f) \<longleftrightarrow> ticks_left f = 1"
proof -
  let ?x = "(target f - opacity f) / change f"
  have "ticks_left f = 1 \<longleftrightarrow> \<lceil>?x\<rceil> \<le> 1"
    unfolding ticks_left_def by linarith
  also have "\<dots> \<longleftrightarrow> ?x \<le> 1"
    using ceiling_le_iff [of ?x 1] by simp
  finally show ?thesis
    using fade_done_advance [OF assms] by simp
qed

lemma ticks_left_advance:
  assumes "change f \<noteq> 0" and "\<not> fade_done (advance f)"
  shows "ticks_left (advance f) = ticks_left f - 1"
proof -
  let ?x = "(target f - opacity f) / change f"
  have eq: "(target (advance f) - opacity (advance f)) / change (advance f) = ?x - 1"
    using assms(1) by (simp add: advance_def field_simps)
  have "\<not> ?x \<le> 1" using assms fade_done_advance by blast
  then have "\<not> \<lceil>?x\<rceil> \<le> 1" using ceiling_le_iff [of ?x 1] by simp
  then have big: "2 \<le> \<lceil>?x\<rceil>" by linarith
  have "\<lceil>?x - 1\<rceil> = \<lceil>?x\<rceil> - 1" by simp
  with big show ?thesis
    unfolding ticks_left_def eq by linarith
qed

lemma fader_ticks_absent:
  "queue_ok (fade_queue s) \<Longrightarrow> map_of (fade_queue s) k = None \<Longrightarrow>
   map_of (fade_queue (fader_ticks port m s)) k = None \<and>
   opacities_of k (out (fader_ticks port m s)) = opacities_of k (out s)"
proof (induction m arbitrary: s)
  case 0
  then show ?case by simp
next
  case (Suc m)
  show ?case
  proof (cases "fade_queue s = []")
    case True
    then show ?thesis by (simp add: fader_iter_empty)
  next
    case False
    from Suc.prems(1) have d: "distinct (map fst (fade_queue s))"
      by (simp add: queue_ok_def)
    from fader_iter_Some [OF d False, of port] obtain s' where
      it: "fader_iter port s = Some s'"
      and q': "fade_queue s' = tick_queue (fade_queue s)"
      and c': "cmds (out s') =
           cmds (out s) @ map (\<lambda>p. (win (snd p), issued (snd p))) (fade_queue s)"
      by blast
    have ok': "queue_ok (fade_queue s')"
      using Suc.prems(1) q' by (simp add: queue_ok_tick)
    have none': "map_of (fade_queue s') k = None"
      using Suc.prems(2) d q' by (simp add: map_of_tick_queue)
    have o': "opacities_of k (out s') = opacities_of k (out s)"
      using c' issued_of_key [OF Suc.prems(1), of k] Suc.prems(2)
      by (simp add: opacities_of_def)
    from Suc.IH [OF ok' none'] it o' show ?thesis by simp
  qed
qed

lemma fader_ticks_entry:
  "queue_ok (fade_queue s) \<Longrightarrow> map_of (fade_queue s) k = Some f \<Longrightarrow> change f \<noteq> 0 \<Longrightarrow>
   map_of (fade_queue (fader_ticks port m s)) k =
     (if m < ticks_left f then Some (f\<lparr>opacity := opacity f + of_nat m * change f\<rparr>)
      else None)"
proof (induction m arbitrary: s f)
  case 0
  then show ?case by (simp add: ticks_left_pos)
next
  case (Suc m)
  from Suc.prems(1) have d: "distinct (map fst (fade_queue s))"
    by (simp add: queue_ok_def)
  from Suc.prems(2) have ne: "fade_queue s \<noteq> []" by auto
  from fader_iter_Some [OF d ne, of port] obtain s' where
    it: "fader_iter port s = Some s'"
    and q': "fade_queue s' = tick_queue (fade_queue s)"
    by blast
  have ok': "queue_ok (fade_queue s')"
    using Suc.prems(1) q' by (simp add: queue_ok_tick)
  show ?case
  proof (cases "fade_done (advance f)")
    case True
    then have one: "ticks_left f = 1"
      using ticks_left_done [OF Suc.prems(3)] by simp
    have none': "map_of (fade_queue s') k = None"
      using Suc.prems(2) d q' True by (simp add: map_of_tick_queue)
    from fader_ticks_absent [OF ok' none', of port m] it one show ?thesis by simp
  next
    case False
    then have left: "ticks_left (advance f) = ticks_left f - 1"
      using ticks_left_advance [OF Suc.prems(3)] by simp
    have some': "map_of (fade_queue s') k = Some (advance f)"
      using Suc.prems(2) d q' False by (simp add: map_of_tick_queue)
    have ch: "change (advance f) \<noteq> 0"
      using Suc.prems(3) by (simp add: advance_def)
    have "map_of (fade_queue (fader_ticks port m s')) k =
        (if m < ticks_left (advance f)
         then Some ((advance f)\<lparr>opacity := opacity (advance f) + of_nat m * change (advance f)\<rparr>)
         else None)"
      by (rule Suc.IH [OF ok' some' ch])
    moreover have "(advance f)\<lparr>opacity := opacity (advance f) + of_nat m * change (advance f)\<rparr> =
        f\<lparr>opacity := opacity f + of_nat (Suc m) * change f\<rparr>"
      by (simp add: advance_def algebra_simps)
    moreover have "m < ticks_left (advance f) \<longleftrightarrow> Suc m < ticks_left f"
      using left ticks_left_pos [of f] by linarith
    ultimately show ?thesis using it by simp
  qed
qed

lemma fade_values_Suc:
  "0 < n \<Longrightarrow> (opacity f + change f) # fade_values (advance f) n = fade_values f (Suc n)"
proof -
  assume "0 < n"
  then have "[1..<Suc n] = 1 # map Suc [1..<n]"
    by (simp add: upt_conv_Cons map_Suc_upt del: upt_Suc)
  then show ?thesis
    by (simp add: fade_values_def advance_def algebra_simps comp_def del: upt_Suc)
qed

lemma fader_ticks_opacities:
  "queue_ok (fade_queue s) \<Longrightarrow> map_of (fade_queue s) k = Some f \<Longrightarrow> change f \<noteq> 0 \<Longrightarrow>
   opacities_of k (out (fader_ticks port m s)) =
     opacities_of k (out s) @
       (if m < ticks_left f then fade_values f (Suc m)
        else fade_values f (ticks_left f) @ [target f])"
proof (induction m arbitrary: s f)
  case 0
  then show ?case by (simp add: ticks_left_pos fade_values_def)
next
  case (Suc m)
  from Suc.prems(1) have d: "distinct (map fst (fade_queue s))"
    by (simp add: queue_ok_def)
  from Suc.prems(2) have ne: "fade_queue s \<noteq> []" by auto
  from fader_iter_Some [OF d ne, of port] obtain s' where
    it: "fader_iter port s = Some s'"
    and q': "fade_queue s' = tick_queue (fade_queue s)"
    and c': "cmds (out s') =
         cmds (out s) @ map (\<lambda>p. (win (snd p), issued (snd p))) (fade_queue s)"
    by blast
  have ok': "queue_ok (fade_queue s')"
    using Suc.prems(1) q' by (simp add: queue_ok_tick)
  have o': "opacities_of k (out s') = opacities_of k (out s) @ [issued f]"
    using c' issued_of_key [OF Suc.prems(1), of k] Suc.prems(2)
    by (simp add: opacities_of_def)
  show ?case
  proof (cases "fade_done (advance f)")
    case True
    then have one: "ticks_left f = 1"
      using ticks_left_done [OF Suc.prems(3)] by simp
    have none': "map_of (fade_queue s') k = None"
      using Suc.prems(2) d q' True by (simp add: map_of_tick_queue)
    from fader_ticks_absent [OF ok' none', of port m] it one o' True
    show ?thesis by (simp add: issued_def fade_values_def)
  next
    case False
    then have left: "ticks_left (advance f) = ticks_left f - 1"
      using ticks_left_advance [OF Suc.prems(3)] by simp
    have some': "map_of (fade_queue s') k = Some (advance f)"
      using Suc.prems(2) d q' False by (simp add: map_of_tick_queue)
    have ch: "change (advance f) \<noteq> 0"
      using Suc.prems(3) by (simp add: advance_def)
    have iss: "issued f = opacity f + change f"
      using False by (simp add: issued_def)
    have tg: "target (advance f) = target f" by (simp add: advance_def)
    have lt: "m < ticks_left (advance f) \<longleftrightarrow> Suc m < ticks_left f"
      using left ticks_left_pos [of f] by linarith
    have tl: "Suc (ticks_left (advance f)) = ticks_left f"
      using left ticks_left_pos [of f] by linarith
    have IH: "opacities_of k (out (fader_ticks port m s')) =
        opacities_of k (out s') @
          (if m < ticks_left (advance f) then fade_values (advance f) (Suc m)
           else fade_values (advance f) (ticks_left (advance f)) @ [target (advance f)])"
      by (rule Suc.IH [OF ok' some' ch])
    show ?thesis
    proof (cases "Suc m < ticks_left f")
      case True
      with IH lt o' iss it fade_values_Suc [of "Suc m" f] show ?thesis by simp
    next
      case False
      have fv: "(opacity f + change f) # fade_values (advance f) (ticks_left (advance f)) =
          fade_values f (ticks_left f)"
        using fade_values_Suc [of "ticks_left (advance f)" f] ticks_left_pos [of "advance f"] tl
        by simp
      with False IH lt o' iss it tg show ?thesis by simp
    qed
  qed
qed

subsection \<open>The course of one fade\<close>

lemma before_target:
  assumes "0 < j" and "j < ticks_left f"
  shows "0 < change f \<Longrightarrow> opacity f + of_nat j * change f < target f"
    and "change f < 0 \<Longrightarrow> target f < opacity f + of_nat j * change f"
proof -
  let ?x = "(target f - opacity f) / change f"
  from assms have "int j < \<lceil>?x\<rceil>"
    unfolding ticks_left_def by linarith
  then have lt: "of_nat j < ?x"
    using less_ceiling_iff [of "int j" ?x] by simp
  show "opacity f + of_nat j * change f < target f" if "0 < change f"
    using lt that by (simp add: pos_less_divide_eq)
  show "target f < opacity f + of_nat j * change f" if "change f < 0"
    using lt that by (simp add: neg_less_divide_eq)
qed

lemma fade_values_set:
  "set (fade_values f n) = (\<lambda>j. opacity f + of_nat j * change f) ` {1..<n}"
  by (simp add: fade_values_def)

lemma fade_values_up:
  "0 < change f \<Longrightarrow> sorted (fade_values f n)"
proof -
  assume pos: "0 < change f"
  have "sorted_wrt (<) [1..<n]" by simp
  then have "sorted_wrt (\<lambda>i j. opacity f + of_nat i * change f \<le> opacity f + of_nat j * change f) [1..<n]"
    by (rule sorted_wrt_mono_rel [rotated]) (use pos in simp)
  then show ?thesis by (simp add: fade_values_def sorted_map)
qed

lemma fade_values_down:
  "change f < 0 \<Longrightarrow> sorted_wrt (\<ge>) (fade_values f n)"
proof -
  assume neg: "change f < 0"
  have "sorted_wrt (<) [1..<n]" by simp
  then have "sorted_wrt (\<lambda>i j. opacity f + of_nat i * change f \<ge> opacity f + of_nat j * change f) [1..<n]"
    by (rule sorted_wrt_mono_rel [rotated]) (use neg in \<open>simp add: mult_le_cancel_right\<close>)
  then show ?thesis by (simp add: fade_values_def sorted_wrt_map)
qed

lemma commanded_values:
  assumes "queue_ok (fade_queue s)" and "map_of (fade_queue s) k = Some f" and "change f \<noteq> 0"
  shows "commanded port s k m =
     (if m < ticks_left f then fade_values f (Suc m)
      else fade_values f (ticks_left f) @ [target f])"
  unfolding commanded_def fader_ticks_opacities [OF assms] by simp

lemma opacity_at_value:
  assumes "queue_ok (fade_queue s)" and "map_of (fade_queue s) k = Some f" and "change f \<noteq> 0"
  shows "opacity_at port s k m =
     (if m < ticks_left f then Some (opacity f + of_nat m * change f) else None)"
  unfolding opacity_at_def fader_ticks_entry [OF assms] by simp

lemma commanded_up:
  assumes "queue_ok (fade_queue s)" and "map_of (fade_queue s) k = Some f" and "0 < change f"
  shows "sorted (commanded port s k m)" and "\<forall>v \<in> set (commanded port s k m). v \<le> target f"
proof -
  from assms(3) have nz: "change f \<noteq> 0" by simp
  have below: "v < target f" if "v \<in> set (fade_values f n)" and "n \<le> ticks_left f" for v n
    using that before_target(1) [OF _ _ assms(3)] by (auto simp: fade_values_set)
  show "sorted (commanded port s k m)"
    using fade_values_up [OF assms(3)] below [of _ "ticks_left f"]
    by (auto simp: commanded_values [OF assms(1,2) nz] sorted_append less_imp_le)
  show "\<forall>v \<in> set (commanded port s k m). v \<le> target f"
    using below [of _ "Suc m"] below [of _ "ticks_left f"]
    by (auto simp: commanded_values [OF assms(1,2) nz] less_imp_le)
qed

lemma commanded_down:
  assumes "queue_ok (fade_queue s)" and "map_of (fade_queue s) k = Some f" and "change f < 0"
  shows "sorted_wrt (\<ge>) (commanded port s k m)" and "\<forall>v \<in> set (commanded port s k m). target f \<le> v"
proof -
  from assms(3) have nz: "change f \<noteq> 0" by simp
  have above: "target f < v" if "v \<in> set (fade_values f n)" and "n \<le> ticks_left f" for v n
    using that before_target(2) [OF _ _ assms(3)] by (auto simp: fade_values_set)
  show "sorted_wrt (\<ge>) (commanded port s k m)"
    using fade_values_down [OF assms(3)] above [of _ "ticks_left f"]
    by (auto simp: commanded_values [OF assms(1,2) nz] sorted_wrt_append less_imp_le)
  show "\<forall>v \<in> set (commanded port s k m). target f \<le> v"
    using above [of _ "Suc m"] above [of _ "ticks_left f"]
    by (auto simp: commanded_values [OF assms(1,2) nz] less_imp_le)
qed


lemma opacity_at_mono:
  assumes "queue_ok (fade_queue s)" and "map_of (fade_queue s) k = Some f" and "change f \<noteq> 0"
    and "i \<le> j" and "j < ticks_left f"
  shows "opacity_at port s k i = Some (opacity f + of_nat i * change f)"
    and "opacity_at port s k j = Some (opacity f + of_nat j * change f)"
    and "0 < change f \<Longrightarrow> opacity f + of_nat i * change f \<le> opacity f + of_nat j * change f"
    and "change f < 0 \<Longrightarrow> opacity f + of_nat j * change f \<le> opacity f + of_nat i * change f"
  using assms(4,5) by (simp_all add: opacity_at_value [OF assms(1-3)] mult_le_cancel_right)

text \<open>
  Claim C2. Take a fade in flight (an entry \<open>f\<close> of the queue under the identifier
  \<open>k\<close>) with a non-zero increment, and let the worker run \<open>m\<close> passes with no
  request in between. The entry stays for \<open>ticks_left f\<close> passes, holding the opacity
  \<open>opacity f + m * change f\<close> after \<open>m\<close> of them, and is gone from then on. Once
  it is gone, the last value commanded for the window is exactly \<open>target f\<close>. With a
  positive increment the stored opacity does not decrease from one pass to a later one
  while the entry exists, the commanded values are in non-decreasing order, and none of
  them exceeds the target; with a negative increment the same holds with the order
  reversed.
\<close>

theorem fade_monotone_to_target:
  assumes "queue_ok (fade_queue s)" and "map_of (fade_queue s) k = Some f" and "change f \<noteq> 0"
  shows "opacity_at port s k m =
           (if m < ticks_left f then Some (opacity f + of_nat m * change f) else None)
       \<and> commanded port s k m =
           (if m < ticks_left f then fade_values f (Suc m)
            else fade_values f (ticks_left f) @ [target f])
       \<and> (ticks_left f \<le> m \<longrightarrow>
            commanded port s k m \<noteq> [] \<and> last (commanded port s k m) = target f)
       \<and> (0 < change f \<longrightarrow>
            sorted (commanded port s k m) \<and>
            (\<forall>v \<in> set (commanded port s k m). v \<le> target f) \<and>
            (\<forall>i j. i \<le> j \<and> j < ticks_left f \<longrightarrow>
               (\<exists>a b. opacity_at port s k i = Some a \<and> opacity_at port s k j = Some b \<and>
                      a \<le> b)))
       \<and> (change f < 0 \<longrightarrow>
            sorted_wrt (\<ge>) (commanded port s k m) \<and>
            (\<forall>v \<in> set (commanded port s k m). target f \<le> v) \<and>
            (\<forall>i j. i \<le> j \<and> j < ticks_left f \<longrightarrow>
               (\<exists>a b. opacity_at port s k i = Some a \<and> opacity_at port s k j = Some b \<and>
                      b \<le> a)))"
proof (intro conjI impI allI)
  show "opacity_at port s k m =
      (if m < ticks_left f then Some (opacity f + of_nat m * change f) else None)"
    by (rule opacity_at_value [OF assms])
  show c: "commanded port s k m =
      (if m < ticks_left f then fade_values f (Suc m)
       else fade_values f (ticks_left f) @ [target f])"
    by (rule commanded_values [OF assms])
  show "commanded port s k m \<noteq> []" if "ticks_left f \<le> m"
    using that c by simp
  show "last (commanded port s k m) = target f" if "ticks_left f \<le> m"
    using that c by simp
  show "sorted (commanded port s k m)" if "0 < change f"
    by (rule commanded_up(1) [OF assms(1,2) that])
  show "\<forall>v \<in> set (commanded port s k m). v \<le> target f" if "0 < change f"
    by (rule commanded_up(2) [OF assms(1,2) that])
  show "sorted_wrt (\<ge>) (commanded port s k m)" if "change f < 0"
    by (rule commanded_down(1) [OF assms(1,2) that])
  show "\<forall>v \<in> set (commanded port s k m). target f \<le> v" if "change f < 0"
    by (rule commanded_down(2) [OF assms(1,2) that])
  show "\<exists>a b. opacity_at port s k i = Some a \<and> opacity_at port s k j = Some b \<and> a \<le> b"
    if "0 < change f" and "i \<le> j \<and> j < ticks_left f" for i j
    using opacity_at_mono [OF assms, where i = i and j = j] that by simp
  show "\<exists>a b. opacity_at port s k i = Some a \<and> opacity_at port s k j = Some b \<and> b \<le> a"
    if "change f < 0" and "i \<le> j \<and> j < ticks_left f" for i j
    using opacity_at_mono [OF assms, where i = i and j = j] that by simp
qed

lemma fading_AB_queue:
  "fade_queue fading_AB =
     [(1, \<lparr>opacity = 0.5, change = 0.2, target = 1, win = win_A\<rparr>),
      (2, \<lparr>opacity = 1, change = - 0.2, target = 0.5, win = win_B\<rparr>)]"
  by (simp add: fading_AB_def add_fade_def start_fader_def init_fields_def Let_def settings
      win_A_def win_B_def)

lemma ticks_left_sample:
  "ticks_left \<lparr>opacity = 1 / 2, change = 1 / 5, target = 1, win = w\<rparr> = 3"
  "ticks_left \<lparr>opacity = 1, change = - (1 / 5), target = 1 / 2, win = w\<rparr> = 3"
proof -
  have "\<lceil>(5::rat) / 2\<rceil> = 3" by (simp add: ceiling_eq_iff)
  then show "ticks_left \<lparr>opacity = 1 / 2, change = 1 / 5, target = 1, win = w\<rparr> = 3"
    and "ticks_left \<lparr>opacity = 1, change = - (1 / 5), target = 1 / 2, win = w\<rparr> = 3"
    by (simp_all add: ticks_left_def)
qed

theorem fade_monotone_to_target_witness:
  "opacity_at port_ok fading_AB 1 2 = Some 0.9 \<and>
   opacity_at port_ok fading_AB 1 3 = None \<and>
   commanded port_ok fading_AB 1 3 = [0.7, 0.9, 1] \<and>
   sorted (commanded port_ok fading_AB 1 3) \<and>
   opacity_at port_ok fading_AB 2 2 = Some 0.6 \<and>
   opacity_at port_ok fading_AB 2 3 = None \<and>
   commanded port_ok fading_AB 2 3 = [0.8, 0.6, 0.5] \<and>
   sorted_wrt (\<ge>) (commanded port_ok fading_AB 2 3)"
  using
    fade_monotone_to_target [of fading_AB 1
      "\<lparr>opacity = 0.5, change = 0.2, target = 1, win = win_A\<rparr>" port_ok 2]
    fade_monotone_to_target [of fading_AB 1
      "\<lparr>opacity = 0.5, change = 0.2, target = 1, win = win_A\<rparr>" port_ok 3]
    fade_monotone_to_target [of fading_AB 2
      "\<lparr>opacity = 1, change = - 0.2, target = 0.5, win = win_B\<rparr>" port_ok 2]
    fade_monotone_to_target [of fading_AB 2
      "\<lparr>opacity = 1, change = - 0.2, target = 0.5, win = win_B\<rparr>" port_ok 3]
  by (simp add: fading_AB_queue queue_ok_def win_A_def win_B_def ticks_left_sample
      fade_values_def upt_conv_Cons)

subsection \<open>How long a fade takes\<close>

lemma add_fade_queue:
  "d \<noteq> 0 \<Longrightarrow> start \<noteq> targ \<Longrightarrow>
   fade_queue (add_fade port s (Some w) start targ (Some d)) =
     AList.update (wid w)
       \<lparr>opacity = start, change = FRAME_T / d * (targ - start), target = targ, win = w\<rparr>
       (fade_queue s)"
  by (simp add: add_fade_def start_fader_def Let_def)

lemma ticks_left_new:
  assumes "0 < d" and "opacity f \<noteq> target f"
    and "change f = FRAME_T / d * (target f - opacity f)"
  shows "ticks_left f = nat \<lceil>d / FRAME_T\<rceil>" and "0 < nat \<lceil>d / FRAME_T\<rceil>"
proof -
  have T: "0 < FRAME_T" by (simp add: FRAME_T_def)
  from assms(1,2) T have
    "(target f - opacity f) / (FRAME_T / d * (target f - opacity f)) = d / FRAME_T"
    by (simp add: field_simps)
  then have eq: "(target f - opacity f) / change f = d / FRAME_T"
    by (simp only: assms(3))
  from assms(1) T have "0 < d / FRAME_T" by simp
  then have "0 < \<lceil>d / FRAME_T\<rceil>"
    using less_ceiling_iff [of 0 "d / FRAME_T"] by simp
  then have one: "1 \<le> nat \<lceil>d / FRAME_T\<rceil>" by linarith
  then show "0 < nat \<lceil>d / FRAME_T\<rceil>" by linarith
  have "ticks_left f = max 1 (nat \<lceil>d / FRAME_T\<rceil>)"
    unfolding ticks_left_def eq ..
  also have "\<dots> = nat \<lceil>d / FRAME_T\<rceil>"
    using one by (rule max_absorb2)
  finally show "ticks_left f = nat \<lceil>d / FRAME_T\<rceil>" .
qed

text \<open>
  Claim C4. A fade created by \<^verbatim>\<open>add_fade(win, start, target, duration)\<close> with a
  positive duration and a start different from the target, in any well-formed queue
  (whatever other fades are pending), gets the increment
  \<open>c = FRAME_T / duration * (target - start)\<close> and is removed after exactly
  \<open>n = \<lceil>duration / FRAME_T\<rceil>\<close> passes of the worker, in exact rational arithmetic:
  after \<open>m < n\<close> passes the entry is still there with opacity \<open>start + m * c\<close>,
  after \<open>n\<close> or more passes it is gone, and by then exactly \<open>n\<close> commands were
  sent for the window, the last one carrying the target.
\<close>

theorem fade_completes_in_ceiling_ticks:
  assumes "queue_ok (fade_queue s)" and "0 < d" and "start \<noteq> targ"
  shows "(let s1 = add_fade port s (Some w) start targ (Some d);
              n = nat \<lceil>d / FRAME_T\<rceil>;
              c = FRAME_T / d * (targ - start)
          in 0 < n \<and>
             map_of (fade_queue (fader_ticks port m s1)) (wid w) =
               (if m < n
                then Some \<lparr>opacity = start + of_nat m * c, change = c, target = targ, win = w\<rparr>
                else None) \<and>
             commanded port s1 (wid w) m =
               (if m < n then map (\<lambda>j. start + of_nat j * c) [1..<Suc m]
                else map (\<lambda>j. start + of_nat j * c) [1..<n] @ [targ]))"
proof -
  define c where "c = FRAME_T / d * (targ - start)"
  define e where "e = \<lparr>opacity = start, change = c, target = targ, win = w\<rparr>"
  define s1 where "s1 = add_fade port s (Some w) start targ (Some d)"
  define n where "n = nat \<lceil>d / FRAME_T\<rceil>"
  from assms(2) have d: "d \<noteq> 0" by simp
  have q: "fade_queue s1 = AList.update (wid w) e (fade_queue s)"
    unfolding s1_def e_def c_def by (rule add_fade_queue [OF d assms(3)])
  have ok: "queue_ok (fade_queue s1)"
    unfolding q by (rule queue_ok_update [OF assms(1)]) (simp add: e_def)
  have e: "map_of (fade_queue s1) (wid w) = Some e"
    unfolding q by (simp add: update_conv')
  have tl: "ticks_left e = n" and pos: "0 < n"
    unfolding n_def
    using ticks_left_new [of d e] assms(2,3) by (simp_all add: e_def c_def)
  have c: "change e \<noteq> 0"
    using d assms(3) by (simp add: e_def c_def FRAME_T_def)
  have "map_of (fade_queue (fader_ticks port m s1)) (wid w) =
      (if m < n
       then Some \<lparr>opacity = start + of_nat m * c, change = c, target = targ, win = w\<rparr>
       else None)"
    using fader_ticks_entry [OF ok e c, of port m, unfolded tl] by (simp add: e_def)
  moreover have "commanded port s1 (wid w) m =
      (if m < n then map (\<lambda>j. start + of_nat j * c) [1..<Suc m]
       else map (\<lambda>j. start + of_nat j * c) [1..<n] @ [targ])"
    using commanded_values [OF ok e c, of port m, unfolded tl]
    by (simp add: fade_values_def e_def)
  ultimately show ?thesis
    using pos unfolding Let_def s1_def [symmetric] n_def [symmetric] c_def [symmetric]
    by simp
qed

lemma ceiling_sample: "\<lceil>(5::rat) / 2\<rceil> = 3"
  by (simp add: ceiling_eq_iff)

theorem fade_completes_in_ceiling_ticks_witness:
  "map_of (fade_queue (fader_ticks port_ok 2
       (add_fade port_ok fading_AB (Some win_F) 0.88 1 (Some 0.025)))) 3 =
     Some \<lparr>opacity = 0.976, change = 0.048, target = 1, win = win_F\<rparr> \<and>
   map_of (fade_queue (fader_ticks port_ok 3
       (add_fade port_ok fading_AB (Some win_F) 0.88 1 (Some 0.025)))) 3 = None \<and>
   commanded port_ok (add_fade port_ok fading_AB (Some win_F) 0.88 1 (Some 0.025)) 3 3 =
     [0.928, 0.976, 1]"
  using
    fade_completes_in_ceiling_ticks [of fading_AB "0.025" "0.88" 1 port_ok win_F 2]
    fade_completes_in_ceiling_ticks [of fading_AB "0.025" "0.88" 1 port_ok win_F 3]
  by (simp add: fading_AB_queue queue_ok_def win_A_def win_B_def win_F_def FRAME_T_def
      ceiling_sample Let_def upt_conv_Cons)

end
